theory Spec2Isabelle
  imports Complex_Main "HOL-Library.Sublist"
begin

section \<open>JavaScript values the chart maker computes with\<close>

text \<open>
  A JavaScript string is a sequence of UTF-16 code units. The model is \<^typ>\<open>string\<close>:
  a \<^typ>\<open>char\<close> stands for a code unit below 256, which covers every character the
  parser and the label wrapper look at (comma, line feed, percent sign, digits, sign,
  point, exponent letter, white space).

  A JavaScript number is an IEEE double. The model keeps the three special values apart
  and takes a finite number to be the exact value of its decimal literal, a
  \<^typ>\<open>real\<close>; rounding to the nearest double is not part of the model. Whether a
  number is \<open>NaN\<close> does not depend on rounding.
\<close>

datatype number = NaN | Infinity | NegInfinity | Finite real

definition isNaN :: "number \<Rightarrow> bool" where
  "isNaN n = (n = NaN)"

text \<open>The errors a JavaScript built-in raises in the code below.\<close>

datatype error = TypeError | RangeError

text \<open>\<open>xs[i]\<close> on an array: \<open>undefined\<close> (here \<open>None\<close>) out of range.\<close>

definition nth_opt :: "'a list \<Rightarrow> nat \<Rightarrow> 'a option" where
  "nth_opt xs i = (if i < length xs then Some (xs ! i) else None)"

text \<open>
  \<open>v || d\<close> for a string or \<open>undefined\<close>: the empty string and \<open>undefined\<close>
  are falsy, every other string is truthy.
\<close>

definition or_default :: "string option \<Rightarrow> string \<Rightarrow> string" where
  "or_default v d = (case v of None \<Rightarrow> d | Some s \<Rightarrow> if s = [] then d else s)"

text \<open>\<open>ToString\<close> of a string or \<open>undefined\<close>, as \<open>parseFloat\<close> applies it.\<close>

definition toString :: "string option \<Rightarrow> string" where
  "toString v = (case v of None \<Rightarrow> ''undefined'' | Some s \<Rightarrow> s)"

subsection \<open>String built-ins\<close>

text \<open>
  White space and line terminators of ECMAScript among the code units below 256: tab,
  line feed, vertical tab, form feed, carriage return, space, no-break space.
\<close>

definition isWhiteSpace :: "char \<Rightarrow> bool" where
  "isWhiteSpace c = (of_char c \<in> {9, 10, 11, 12, 13, 32, 160 :: nat})"

definition trim :: "string \<Rightarrow> string" where
  "trim s = rev (dropWhile isWhiteSpace (rev (dropWhile isWhiteSpace s)))"

text \<open>
  \<open>s.split(sep)\<close> for a one-character separator: the pieces between the separators,
  empty pieces kept, so the result is never empty (\<open>"".split(",")\<close> is \<open>[""]\<close>).
\<close>

fun split :: "char \<Rightarrow> string \<Rightarrow> string list" where
  "split sep [] = [[]]"
| "split sep (c # cs) =
     (if c = sep then [] # split sep cs
      else (case split sep cs of
              [] \<Rightarrow> [[c]]
            | w # ws \<Rightarrow> (c # w) # ws))"

text \<open>\<open>s.replace('%', '')\<close>: a string pattern replaces its first occurrence only.\<close>

definition replace_percent :: "string \<Rightarrow> string" where
  "replace_percent s = remove1 (CHR ''%'') s"

subsection \<open>parseFloat\<close>

text \<open>
  \<open>parseFloat\<close> (ECMAScript 19.2.4): drop leading white space, take the longest prefix
  that is a \<open>StrDecimalLiteral\<close> (an optional sign, then \<open>Infinity\<close> or decimal digits
  with an optional fraction and an optional exponent), and return its value; \<open>NaN\<close> when
  no prefix is one. An exponent letter that no digit follows is not part of the prefix.
\<close>

definition isDigit :: "char \<Rightarrow> bool" where
  "isDigit c = (48 \<le> (of_char c :: nat) \<and> (of_char c :: nat) \<le> 57)"

definition digitsValue :: "string \<Rightarrow> nat" where
  "digitsValue ds = foldl (\<lambda>n c. 10 * n + (of_char c - 48)) 0 ds"

definition stripSign :: "string \<Rightarrow> bool \<times> string" where
  "stripSign s =
     (case s of
        [] \<Rightarrow> (False, [])
      | c # r \<Rightarrow> if c = CHR ''-'' then (True, r)
                 else if c = CHR ''+'' then (False, r)
                 else (False, s))"

definition exponentPart :: "string \<Rightarrow> int" where
  "exponentPart s =
     (case s of
        [] \<Rightarrow> 0
      | c # r \<Rightarrow>
          if c = CHR ''e'' \<or> c = CHR ''E'' then
            (let (neg, ds) = stripSign r;
                 ed = takeWhile isDigit ds
             in if ed = [] then 0
                else if neg then - int (digitsValue ed) else int (digitsValue ed))
          else 0)"

definition scale10 :: "real \<Rightarrow> int \<Rightarrow> real" where
  "scale10 m e = (if 0 \<le> e then m * 10 ^ nat e else m / 10 ^ nat (- e))"

definition parseFloat :: "string \<Rightarrow> number" where
  "parseFloat inputString =
     (let trimmed = dropWhile isWhiteSpace inputString;
          (neg, us) = stripSign trimmed
      in if take 8 us = ''Infinity'' then (if neg then NegInfinity else Infinity)
         else
           (let ip = takeWhile isDigit us;
                r1 = dropWhile isDigit us;
                (fp, r2) =
                  (case r1 of
                     [] \<Rightarrow> ([], [])
                   | c # r \<Rightarrow>
                       if c = CHR ''.'' then (takeWhile isDigit r, dropWhile isDigit r)
                       else ([], r1))
            in if ip = [] \<and> fp = [] then NaN
               else
                 (let m = real (digitsValue (ip @ fp)) / 10 ^ length fp;
                      v = scale10 m (exponentPart r2)
                  in Finite (if neg then - v else v))))"

section \<open>The CSV parser (\<open>src/utils/csvParser.ts\<close>)\<close>

record DataPoint =
  category :: string
  metric1 :: number
  metric2 :: number

record ChartData =
  title1 :: string
  title2 :: string
  data :: "DataPoint list"

definition newline :: char where
  "newline = CHR 0x0A"

definition comma :: char where
  "comma = CHR '',''"

text \<open>
  Line 4: \<open>csv.split('\n').map(line => line.trim()).filter(line => line.length > 0)\<close>.
\<close>

definition csvLines :: "string \<Rightarrow> string list" where
  "csvLines csv = filter (\<lambda>line. length line > 0) (map trim (split newline csv))"

text \<open>
  Lines 16 to 24, the header scan. \<open>lines[i].split(',')\<close> raises a \<open>TypeError\<close> when
  \<open>lines[i]\<close> is \<open>undefined\<close>; \<open>parts[1]?.trim().replace('%','')\<close> is \<open>undefined\<close> when
  \<open>parts[1]\<close> is. The loop returns the index at which it breaks, and the initial value
  0 of \<open>headerIndex\<close> when it runs to its end.
\<close>

function headerLoop :: "string list \<Rightarrow> nat \<Rightarrow> error + nat" where
  "headerLoop lines i =
     (if i < min (length lines) 5 then
        (case nth_opt lines i of
           None \<Rightarrow> Inl TypeError
         | Some l \<Rightarrow>
             (let parts = split comma l;
                  secondCol = map_option (\<lambda>p. replace_percent (trim p)) (nth_opt parts 1)
              in if length parts \<ge> 3 \<and> isNaN (parseFloat (toString secondCol))
                 then Inr i
                 else headerLoop lines (i + 1)))
      else Inr 0)"
  by pat_completeness auto
termination
  by (relation "measure (\<lambda>(lines, i). min (length lines) 5 - i)") auto

declare headerLoop.simps [simp del]

text \<open>
  Lines 33 to 52, the three fields of a row: the line split on commas, every piece
  trimmed, then columns 0, 1, 2, or columns 1, 2, 3 when column 0 is empty and the row
  has more than three columns. A column the row does not have is \<open>undefined\<close>.
\<close>

definition rowFields :: "string \<Rightarrow> string option \<times> string option \<times> string option" where
  "rowFields l =
     (let row = split comma l;
          cleanRow = map trim row
      in if nth_opt cleanRow 0 = Some [] \<and> length cleanRow > 3
         then (nth_opt cleanRow 1, nth_opt cleanRow 2, nth_opt cleanRow 3)
         else (nth_opt cleanRow 0, nth_opt cleanRow 1, nth_opt cleanRow 2))"

text \<open>
  Lines 33 to 65, the body of the row loop for one line: \<open>None\<close> when the row is
  skipped (the \<open>continue\<close> of line 54, or the test of line 59 fails), the pushed data
  point otherwise. \<open>val1Str?.replace('%', '') || '0'\<close> is \<open>'0'\<close> when the field is
  \<open>undefined\<close> and when nothing is left of it once the percent sign is removed.
\<close>

definition rowBody :: "string \<Rightarrow> DataPoint option" where
  "rowBody l =
     (let (category, val1Str, val2Str) = rowFields l
      in (case category of
            None \<Rightarrow> None
          | Some c \<Rightarrow>
              if c = [] then None
              else
                (let val1 = parseFloat (or_default (map_option replace_percent val1Str) ''0'');
                     val2 = parseFloat (or_default (map_option replace_percent val2Str) ''0'')
                 in if \<not> isNaN val1 \<and> \<not> isNaN val2
                    then Some \<lparr>category = c, metric1 = val1, metric2 = val2\<rparr>
                    else None)))"

text \<open>Lines 32 to 66, the row loop; \<open>lines[i].split(',')\<close> can raise as above.\<close>

function rowLoop :: "string list \<Rightarrow> nat \<Rightarrow> DataPoint list \<Rightarrow> error + DataPoint list" where
  "rowLoop lines i acc =
     (if i < length lines then
        (case nth_opt lines i of
           None \<Rightarrow> Inl TypeError
         | Some l \<Rightarrow>
             (case rowBody l of
                None \<Rightarrow> rowLoop lines (i + 1) acc
              | Some p \<Rightarrow> rowLoop lines (i + 1) (acc @ [p])))
      else Inr acc)"
  by pat_completeness auto
termination
  by (relation "measure (\<lambda>(lines, i, acc). length lines - i)") auto

declare rowLoop.simps [simp del]

definition parseCSV :: "string \<Rightarrow> error + ChartData" where
  "parseCSV csv =
     (let lines = csvLines csv
      in if length lines = 0
         then Inr \<lparr>title1 = ''Metric 1'', title2 = ''Metric 2'', data = []\<rparr>
         else
           (case headerLoop lines 0 of
              Inl e \<Rightarrow> Inl e
            | Inr headerIndex \<Rightarrow>
                (case nth_opt lines headerIndex of
                   None \<Rightarrow> Inl TypeError
                 | Some h \<Rightarrow>
                     (let headerRow = map trim (split comma h);
                          t1 = or_default (nth_opt headerRow 1) ''Metric 1'';
                          t2 = or_default (nth_opt headerRow 2) ''Metric 2''
                      in (case rowLoop lines (headerIndex + 1) [] of
                            Inl e \<Rightarrow> Inl e
                          | Inr rows \<Rightarrow> Inr \<lparr>title1 = t1, title2 = t2, data = rows\<rparr>)))))"

subsection \<open>The vocabulary of the claims about the parser\<close>

text \<open>
  A line qualifies as the header when its split on commas has at least three fields and
  the second field, trimmed and with its percent sign removed, does not parse as a
  number.
\<close>

definition isHeaderLine :: "string \<Rightarrow> bool" where
  "isHeaderLine l =
     (let parts = split comma l
      in 3 \<le> length parts \<and> isNaN (parseFloat (replace_percent (trim (parts ! 1)))))"

text \<open>
  The first qualifying line among the lines \<open>i, ..., 4\<close>, and line 0 when there is none.
\<close>

definition firstHeader :: "string list \<Rightarrow> nat \<Rightarrow> nat" where
  "firstHeader lines i =
     (case filter (\<lambda>j. isHeaderLine (lines ! j)) [i..<min (length lines) 5] of
        [] \<Rightarrow> 0
      | j # _ \<Rightarrow> j)"

definition postHeaderLines :: "string \<Rightarrow> string list" where
  "postHeaderLines csv = drop (firstHeader (csvLines csv) 0 + 1) (csvLines csv)"

text \<open>
  A metric field is empty when the row does not have it or nothing is left of it once
  the percent sign is removed; it is numeric when what is left parses as a number.
\<close>

definition metricEmpty :: "string option \<Rightarrow> bool" where
  "metricEmpty v = (case v of None \<Rightarrow> True | Some s \<Rightarrow> replace_percent s = [])"

definition metricNumeric :: "string option \<Rightarrow> bool" where
  "metricNumeric v =
     (case v of None \<Rightarrow> False | Some s \<Rightarrow> \<not> isNaN (parseFloat (replace_percent s)))"

text \<open>The inputs of the examples.\<close>

definition legacy_csv :: string where
  "legacy_csv = '',X,10,20'' @ [newline] @ '',Y,5,15''"

definition rowX :: DataPoint where
  "rowX = \<lparr>category = ''X'', metric1 = Finite 10, metric2 = Finite 20\<rparr>"

definition rowY :: DataPoint where
  "rowY = \<lparr>category = ''Y'', metric1 = Finite 5, metric2 = Finite 15\<rparr>"

definition header_second_csv :: string where
  "header_second_csv = ''1,2,3'' @ [newline] @ ''name,a,b'' @ [newline] @ ''X,1,2''"

definition empty_metric_csv :: string where
  "empty_metric_csv = ''h,a,b'' @ [newline] @ ''X,,5''"

section \<open>The palette generator (\<open>generateScale\<close>, \<open>src/types.ts\<close> lines 24 to 53)\<close>

text \<open>
  \<open>Array(steps).fill(v)\<close>: \<open>Array(n)\<close> raises a \<open>RangeError\<close> unless \<open>n\<close> is an
  integer from 0 to \<open>2^32 - 1\<close>. A step count is modelled as an \<^typ>\<open>int\<close>.
\<close>

definition Array_fill :: "int \<Rightarrow> 'a \<Rightarrow> error + 'a list" where
  "Array_fill n v = (if 0 \<le> n \<and> n < 2 ^ 32 then Inr (replicate (nat n) v) else Inl RangeError)"

text \<open>
  \<open>d3.scaleLinear().domain([0, steps - 1]).range([0.55, 0.2])\<close> applied to \<open>i\<close>: the
  position of \<open>i\<close> in the domain (one half when the domain is a single point), then the
  interpolation \<open>a * (1 - t) + b * t\<close> between the two ends of the range, in exact
  arithmetic.
\<close>

definition lightnessScale :: "int \<Rightarrow> int \<Rightarrow> real" where
  "lightnessScale steps i =
     (let t = (if steps - 1 = 0 then 1 / 2 else real_of_int i / real_of_int (steps - 1))
      in 0.55 * (1 - t) + 0.2 * t)"

text \<open>
  The d3 colour functions are parameters of the model: \<open>d3_color\<close> is \<open>d3.color\<close>
  (\<open>None\<close> is its \<open>null\<close>, returned for a string that is no colour), \<open>d3_hsl\<close> reads the
  hue and the saturation of \<open>d3.hsl(color)\<close>, and \<open>formatHex h s l\<close> is
  \<open>d3.hsl(h, s, l).formatHex()\<close>. The loop of lines 45 to 50 runs for
  \<open>i = 0, ..., steps - 1\<close>, and not at all when \<open>steps\<close> is not positive.
\<close>

definition generateScale ::
  "(string \<Rightarrow> 'c option) \<Rightarrow> ('c \<Rightarrow> 'h \<times> 's) \<Rightarrow> ('h \<Rightarrow> 's \<Rightarrow> real \<Rightarrow> string) \<Rightarrow>
   string \<Rightarrow> int \<Rightarrow> error + string list" where
  "generateScale d3_color d3_hsl formatHex baseColor steps =
     (case d3_color baseColor of
        None \<Rightarrow> Array_fill steps baseColor
      | Some color \<Rightarrow>
          (let (h, s) = d3_hsl color
           in Inr (map (\<lambda>i. formatHex h s (lightnessScale steps (int i))) [0..<nat steps])))"

subsection \<open>An instance of the d3 parameters\<close>

text \<open>
  For the examples: what d3 computes for a colour written with six hexadecimal digits,
  \<open>#rrggbb\<close>, in exact arithmetic. \<open>hex_color\<close> reads the three channels (d3 trims
  the string and ignores the case of the digits) and rejects every other string; d3
  itself also accepts colour names and the other notations of CSS. \<open>hex_hsl\<close> is the
  conversion of d3's \<open>hsl\<close> to hue and saturation, \<open>None\<close> where d3 has \<open>NaN\<close> (the hue
  of a grey, the saturation of black and of white). \<open>hex_formatHex\<close> converts back to
  channels and formats them, each rounded to the nearest integer from 0 to 255.
\<close>

definition hexDigit :: "char \<Rightarrow> nat option" where
  "hexDigit c =
     (let n = (of_char c :: nat)
      in if 48 \<le> n \<and> n \<le> 57 then Some (n - 48)
         else if 97 \<le> n \<and> n \<le> 102 then Some (n - 87)
         else if 65 \<le> n \<and> n \<le> 70 then Some (n - 55)
         else None)"

definition hex_color :: "string \<Rightarrow> (nat \<times> nat \<times> nat) option" where
  "hex_color format =
     (case trim format of
        [] \<Rightarrow> None
      | c # ds \<Rightarrow>
          if c = CHR ''#'' then
            (case those (map hexDigit ds) of
               Some [r1, r0, g1, g0, b1, b0] \<Rightarrow> Some (16 * r1 + r0, 16 * g1 + g0, 16 * b1 + b0)
             | _ \<Rightarrow> None)
          else None)"

definition hex_hsl :: "nat \<times> nat \<times> nat \<Rightarrow> real option \<times> real option" where
  "hex_hsl rgb =
     (case rgb of (r0, g0, b0) \<Rightarrow>
        (let r = real r0 / 255; g = real g0 / 255; b = real b0 / 255;
             mn = min r (min g b); mx = max r (max g b);
             s = mx - mn; l = (mx + mn) / 2
         in if s \<noteq> 0 then
              (let h = (if r = mx then (g - b) / s + (if g < b then 6 else 0)
                        else if g = mx then (b - r) / s + 2
                        else (r - g) / s + 4)
               in (Some (h * 60), Some (s / (if l < 1 / 2 then mx + mn else 2 - mx - mn))))
            else (None, if 0 < l \<and> l < 1 then Some 0 else None)))"

definition hsl2rgb :: "real \<Rightarrow> real \<Rightarrow> real \<Rightarrow> real" where
  "hsl2rgb h m1 m2 =
     (if h < 60 then m1 + (m2 - m1) * h / 60
      else if h < 180 then m2
      else if h < 240 then m1 + (m2 - m1) * (240 - h) / 60
      else m1) * 255"

definition hexChannel :: "real \<Rightarrow> string" where
  "hexChannel v =
     (let n = nat (max 0 (min 255 \<lfloor>v + 1 / 2\<rfloor>))
      in [''0123456789abcdef'' ! (n div 16), ''0123456789abcdef'' ! (n mod 16)])"

definition hex_formatHex :: "real option \<Rightarrow> real option \<Rightarrow> real \<Rightarrow> string" where
  "hex_formatHex h s l =
     (let hv = map_option (\<lambda>x. x - 360 * of_int (if 0 \<le> x then \<lfloor>x / 360\<rfloor> else \<lceil>x / 360\<rceil>)
                               + (if x < 0 then 360 else 0)) h;
          sv = (case (hv, s) of (Some _, Some s0) \<Rightarrow> s0 | _ \<Rightarrow> 0);
          m2 = l + (if l < 1 / 2 then l else 1 - l) * sv;
          m1 = 2 * l - m2
      in (case hv of
            None \<Rightarrow> ''#'' @ hexChannel (m1 * 255) @ hexChannel (m1 * 255) @ hexChannel (m1 * 255)
          | Some x \<Rightarrow>
              ''#'' @ hexChannel (hsl2rgb (if x \<ge> 240 then x - 240 else x + 120) m1 m2)
                  @ hexChannel (hsl2rgb x m1 m2)
                  @ hexChannel (hsl2rgb (if x < 120 then x + 240 else x - 120) m1 m2)))"

section \<open>Label fitting (\<open>BubbleChart\<close>, \<open>src/unnamed/part_000\<close> lines 89 to 166)\<close>

text \<open>
  Radii, offsets and font sizes are doubles in the code and \<^typ>\<open>real\<close> here: a
  real stands for a finite double. \<open>NaN\<close>, which \<open>Math.min\<close> and \<open>Math.max\<close> pass on,
  is not a value of the model; it is no radius \<open>r > 0\<close>.
  Lines 101 to 114: the font size of the name label. \<open>charCount\<close> is \<open>name.length\<close>.
\<close>

definition fontSize :: "real \<Rightarrow> string \<Rightarrow> real" where
  "fontSize radius name =
     (let charCount = length name;
          fs0 = min (radius / 4.5) 11;
          fs1 = (if charCount > 0
                 then (let areaHeuristic = radius * sqrt (2.8 / real charCount)
                       in min fs0 areaHeuristic)
                 else fs0)
      in max fs1 6)"

text \<open>Lines 126 to 131.\<close>

definition getWidthAtY :: "real \<Rightarrow> real \<Rightarrow> real" where
  "getWidthAtY radius y =
     (let absY = \<bar>y\<bar>
      in if absY \<ge> radius * 0.9 then 0
         else (let w = 2 * sqrt (radius * radius - absY * absY) in w * 0.9))"

text \<open>
  \<open>name.split(/\s+/)\<close>: the pieces between the maximal runs of white space; a run at
  the start or at the end of the name leaves an empty piece there.
\<close>

function splitSpaces :: "string \<Rightarrow> string list" where
  "splitSpaces [] = [[]]"
| "splitSpaces (c # cs) =
     (if isWhiteSpace c then [] # splitSpaces (dropWhile isWhiteSpace cs)
      else (case splitSpaces cs of
              [] \<Rightarrow> [[c]]
            | w # ws \<Rightarrow> (c # w) # ws))"
  by pat_completeness auto
termination
  by (relation "measure length") (auto simp: less_Suc_eq_le length_dropWhile_le)

text \<open>\<open>line.join(" ")\<close>.\<close>

fun joinSpace :: "string list \<Rightarrow> string" where
  "joinSpace [] = []"
| "joinSpace [w] = w"
| "joinSpace (w # v # ws) = w @ '' '' @ joinSpace (v # ws)"

text \<open>
  The state of the wrapping loop (lines 133 to 165). A \<open>tspan\<close> element is its \<open>y\<close>
  attribute and its text. \<open>tspan\<close> is the element the variable of that name refers to,
  always the one appended last; \<open>earlier\<close> are the elements appended before it, in
  order. The text element shows \<open>earlier\<close> followed by \<open>tspan\<close>.
\<close>

record wrapState =
  line :: "string list"
  earlier :: "(real \<times> string) list"
  tspan :: "real \<times> string"
  currentY :: real
  allowedWidth :: real

definition shown :: "wrapState \<Rightarrow> (real \<times> string) list" where
  "shown st = earlier st @ [tspan st]"

text \<open>
  One round of the loop, lines 142 to 164. \<open>textLength\<close> is
  \<open>getComputedTextLength()\<close> of a \<open>tspan\<close> holding the given text, a measurement the
  browser makes: a parameter of the model.
\<close>

definition wrapStep :: "(string \<Rightarrow> real) \<Rightarrow> real \<Rightarrow> real \<Rightarrow> wrapState \<Rightarrow> string \<Rightarrow> wrapState" where
  "wrapStep textLength radius lineHeight st word =
     (let line1 = line st @ [word];
          tspan1 = (fst (tspan st), joinSpace line1)
      in if textLength (joinSpace line1) > allowedWidth st \<and> length line1 > 1 then
           (let line2 = butlast line1;
                tspan2 = (fst (tspan st), joinSpace line2);
                y = currentY st + lineHeight;
                w = getWidthAtY radius y
            in if y < radius * 0.9
               then \<lparr>line = [word], earlier = earlier st @ [tspan2], tspan = (y, word),
                     currentY = y, allowedWidth = w\<rparr>
               else \<lparr>line = [word], earlier = earlier st, tspan = tspan2,
                     currentY = y, allowedWidth = w\<rparr>)
         else \<lparr>line = line1, earlier = earlier st, tspan = tspan1,
               currentY = currentY st, allowedWidth = allowedWidth st\<rparr>)"

text \<open>
  Lines 91 to 165 for one leaf: the words, the font size, the first \<open>tspan\<close> at
  \<open>radius * 0.1\<close> with no text, and the loop over the words. \<open>textLength\<close> takes the
  font size the text element was given.
\<close>

definition wrapStart :: "real \<Rightarrow> wrapState" where
  "wrapStart radius =
     (let y = radius * 0.1
      in \<lparr>line = [], earlier = [], tspan = (y, []), currentY = y,
          allowedWidth = getWidthAtY radius y\<rparr>)"

definition wrapLabel :: "(real \<Rightarrow> string \<Rightarrow> real) \<Rightarrow> real \<Rightarrow> string \<Rightarrow> wrapState" where
  "wrapLabel textLength radius name =
     (let words = splitSpaces name;
          fs = fontSize radius name;
          lineHeight = fs * 1.1
      in foldl (wrapStep (textLength fs) radius lineHeight) (wrapStart radius) words)"

subsection \<open>The vocabulary of the claims about the labels\<close>

text \<open>
  What holds of the wrapping loop once it has consumed the words \<open>pre\<close>: the current
  line is the end of \<open>pre\<close>, and not empty once a word was consumed; every \<open>tspan\<close>
  shows the words of a contiguous run of \<open>pre\<close>, joined by spaces; every \<open>tspan\<close>
  but the first has a \<open>y\<close> smaller than \<open>0.9 * radius\<close>; and the number of \<open>tspan\<close>s
  and of words on the current line together is at most one more than the number of
  words consumed.
\<close>

definition wrapInv :: "real \<Rightarrow> string list \<Rightarrow> wrapState \<Rightarrow> bool" where
  "wrapInv radius pre st =
     (suffix (line st) pre \<and>
      (pre \<noteq> [] \<longrightarrow> line st \<noteq> []) \<and>
      (\<forall>yt \<in> set (shown st).
         \<exists>us. (pre \<noteq> [] \<longrightarrow> us \<noteq> []) \<and> sublist us pre \<and> snd yt = joinSpace us) \<and>
      (\<forall>y \<in> set (tl (map fst (shown st))). y < radius * 0.9) \<and>
      length (shown st) + length (line st) \<le> 1 + length pre)"

text \<open>
  A text measure for the examples: every character is 0.6 of the font size wide.
\<close>

definition charWidth :: "real \<Rightarrow> string \<Rightarrow> real" where
  "charWidth fs s = fs * 0.6 * real (length s)"

section \<open>Properties of the CSV parser\<close>

subsection \<open>The two loops\<close>

lemma split_not_Nil: "split sep s \<noteq> []"
  by (induction s) (auto split: list.splits)

lemma header_test:
  "(3 \<le> length (split comma l) \<and>
    isNaN (parseFloat (toString (map_option (\<lambda>p. replace_percent (trim p)) (nth_opt (split comma l) 1)))))
   = isHeaderLine l"
  by (auto simp: isHeaderLine_def nth_opt_def toString_def Let_def)

lemma header_test_Suc:
  "(3 \<le> length (split comma l) \<and>
    isNaN (parseFloat (toString (map_option (\<lambda>p. replace_percent (trim p)) (nth_opt (split comma l) (Suc 0))))))
   = isHeaderLine l"
  using header_test [of l] by simp

lemma headerLoop_eq: "headerLoop lines i = Inr (firstHeader lines i)"
proof (induction lines i rule: headerLoop.induct)
  case (1 lines i)
  show ?case
  proof (cases "i < min (length lines) 5")
    case False
    then have "min (length lines) 5 \<le> i" by linarith
    then have "[i..<min (length lines) 5] = []" by (rule upt_conv_Nil)
    then have "firstHeader lines i = 0" by (simp only: firstHeader_def filter.simps list.case)
    moreover have "headerLoop lines i = Inr 0"
      using False by (subst headerLoop.simps) (simp only: if_False)
    ultimately show ?thesis by simp
  next
    case True
    then have nth: "nth_opt lines i = Some (lines ! i)"
      by (simp add: nth_opt_def)
    have upt: "[i..<min (length lines) 5] = i # [i + 1..<min (length lines) 5]"
      using True by (simp add: upt_conv_Cons)
    show ?thesis
    proof (cases "isHeaderLine (lines ! i)")
      case True
      with \<open>i < min (length lines) 5\<close> nth show ?thesis
        by (subst headerLoop.simps) (simp add: Let_def header_test_Suc firstHeader_def upt del: upt_Suc)
    next
      case False
      with \<open>i < min (length lines) 5\<close> nth have "headerLoop lines i = headerLoop lines (i + 1)"
        by (subst headerLoop.simps) (simp add: Let_def header_test_Suc)
      also have "\<dots> = Inr (firstHeader lines (i + 1))"
        using "1.IH" [OF \<open>i < min (length lines) 5\<close> nth refl refl] False
        by (simp add: header_test_Suc)
      also have "firstHeader lines (i + 1) = firstHeader lines i"
        using False by (simp add: firstHeader_def upt del: upt_Suc)
      finally show ?thesis .
    qed
  qed
qed

lemma rowLoop_eq: "rowLoop lines i acc = Inr (acc @ List.map_filter rowBody (drop i lines))"
proof (induction lines i acc rule: rowLoop.induct)
  case (1 lines i acc)
  show ?case
  proof (cases "i < length lines")
    case False
    then show ?thesis
      by (subst rowLoop.simps) simp
  next
    case True
    then have nth: "nth_opt lines i = Some (lines ! i)"
      by (simp add: nth_opt_def)
    have dr: "drop i lines = lines ! i # drop (i + 1) lines"
      using True by (simp add: Cons_nth_drop_Suc)
    show ?thesis
    proof (cases "rowBody (lines ! i)")
      case None
      with True nth "1.IH"(1) [OF True nth None] show ?thesis
        by (subst rowLoop.simps) (simp add: dr)
    next
      case (Some p)
      with True nth "1.IH"(2) [OF True nth Some] show ?thesis
        by (subst rowLoop.simps) (simp add: dr)
    qed
  qed
qed

lemma firstHeader_cases:
  "(\<exists>j. i \<le> j \<and> j < min (length lines) 5 \<and> isHeaderLine (lines ! j) \<and>
        (\<forall>k. i \<le> k \<and> k < j \<longrightarrow> \<not> isHeaderLine (lines ! k)) \<and> firstHeader lines i = j)
   \<or> ((\<forall>k. i \<le> k \<and> k < min (length lines) 5 \<longrightarrow> \<not> isHeaderLine (lines ! k)) \<and> firstHeader lines i = 0)"
proof (induction "min (length lines) 5 - i" arbitrary: i)
  case 0
  then have le: "min (length lines) 5 \<le> i" by linarith
  then have "[i..<min (length lines) 5] = []" by (rule upt_conv_Nil)
  then have "firstHeader lines i = 0" by (simp only: firstHeader_def filter.simps list.case)
  moreover have "\<forall>k. i \<le> k \<and> k < min (length lines) 5 \<longrightarrow> \<not> isHeaderLine (lines ! k)"
    using le by (meson leD le_less_trans)
  ultimately show ?case by blast
next
  case (Suc n)
  then have lt: "i < min (length lines) 5" by linarith
  have upt: "[i..<min (length lines) 5] = i # [Suc i..<min (length lines) 5]"
    using lt by (simp add: upt_conv_Cons)
  show ?case
  proof (cases "isHeaderLine (lines ! i)")
    case True
    then have "firstHeader lines i = i"
      by (simp add: firstHeader_def upt del: upt_Suc)
    with True lt show ?thesis by auto
  next
    case False
    then have eq: "firstHeader lines i = firstHeader lines (Suc i)"
      by (simp add: firstHeader_def upt del: upt_Suc)
    from Suc have "n = min (length lines) 5 - Suc i" by linarith
    from Suc.hyps(1) [OF this] show ?thesis
    proof
      assume "\<exists>j. Suc i \<le> j \<and> j < min (length lines) 5 \<and> isHeaderLine (lines ! j) \<and>
        (\<forall>k. Suc i \<le> k \<and> k < j \<longrightarrow> \<not> isHeaderLine (lines ! k)) \<and> firstHeader lines (Suc i) = j"
      then obtain j where j: "Suc i \<le> j" "j < min (length lines) 5" "isHeaderLine (lines ! j)"
        "\<forall>k. Suc i \<le> k \<and> k < j \<longrightarrow> \<not> isHeaderLine (lines ! k)" "firstHeader lines (Suc i) = j"
        by blast
      have "\<forall>k. i \<le> k \<and> k < j \<longrightarrow> \<not> isHeaderLine (lines ! k)"
        using j(4) False by (metis Suc_leI le_neq_implies_less)
      with j eq show ?thesis by (intro disjI1 exI [of _ j]) auto
    next
      assume a: "(\<forall>k. Suc i \<le> k \<and> k < min (length lines) 5 \<longrightarrow> \<not> isHeaderLine (lines ! k)) \<and>
        firstHeader lines (Suc i) = 0"
      have "\<forall>k. i \<le> k \<and> k < min (length lines) 5 \<longrightarrow> \<not> isHeaderLine (lines ! k)"
        using a False by (metis Suc_leI le_neq_implies_less)
      with a eq show ?thesis by auto
    qed
  qed
qed

lemma firstHeader_less: "lines \<noteq> [] \<Longrightarrow> firstHeader lines 0 < length lines"
  using firstHeader_cases [of 0 lines] by auto

lemma parseCSV_eq:
  assumes "csvLines csv \<noteq> []"
  shows "parseCSV csv =
    Inr \<lparr>title1 = or_default (nth_opt (map trim (split comma (csvLines csv ! firstHeader (csvLines csv) 0))) 1) ''Metric 1'',
         title2 = or_default (nth_opt (map trim (split comma (csvLines csv ! firstHeader (csvLines csv) 0))) 2) ''Metric 2'',
         data = List.map_filter rowBody (drop (firstHeader (csvLines csv) 0 + 1) (csvLines csv))\<rparr>"
  using assms firstHeader_less [OF assms]
  by (simp add: parseCSV_def Let_def headerLoop_eq rowLoop_eq nth_opt_def)

lemma parseFloat_zero: "parseFloat ''0'' = Finite 0"
  by (simp add: parseFloat_def isWhiteSpace_def stripSign_def isDigit_def digitsValue_def
      exponentPart_def scale10_def)

lemma metric_value:
  "parseFloat (or_default (map_option replace_percent v) ''0'') =
     (if metricEmpty v then Finite 0 else parseFloat (replace_percent (the v)))"
  by (cases v) (simp_all add: or_default_def metricEmpty_def parseFloat_zero)

lemma metric_ok:
  "(\<not> isNaN (parseFloat (or_default (map_option replace_percent v) ''0''))) =
     (metricEmpty v \<or> metricNumeric v)"
  unfolding metric_value
  by (cases v) (auto simp add: metricEmpty_def metricNumeric_def isNaN_def)

lemma rowBody_kept_iff:
  assumes "rowFields l = (Some c, v1, v2)" and "c \<noteq> []"
  shows "(rowBody l \<noteq> None) = ((metricEmpty v1 \<or> metricNumeric v1) \<and> (metricEmpty v2 \<or> metricNumeric v2))"
  using assms by (simp add: rowBody_def Let_def metric_ok)

lemma rowBody_zero:
  assumes "rowBody l = Some p" and "rowFields l = (c, v1, v2)"
  shows "(metricEmpty v1 \<longrightarrow> metric1 p = Finite 0) \<and> (metricEmpty v2 \<longrightarrow> metric2 p = Finite 0)"
  using assms
  by (auto simp add: rowBody_def Let_def metric_value split: option.splits if_splits)

lemma parseCSV_data:
  "\<exists>d. parseCSV csv = Inr d \<and> data d = List.map_filter rowBody (postHeaderLines csv)"
proof (cases "csvLines csv = []")
  case True
  then show ?thesis by (simp add: parseCSV_def postHeaderLines_def)
next
  case False
  then show ?thesis by (simp add: parseCSV_eq postHeaderLines_def)
qed

lemma length_map_filter_le: "length (List.map_filter f xs) \<le> length xs"
  by (induction xs) (auto split: option.splits)

subsection \<open>Claim C5: the parser raises nothing\<close>

text \<open>
  Claim C5. \<open>parseCSV\<close> returns a \<open>ChartData\<close> for every input string: no
  \<open>TypeError\<close> branch of the model is ever taken. Malformed input only costs rows or
  labels: there is at most one row per line after the first, and both labels are
  non-empty (a missing or empty header field gives the default label).
\<close>

theorem parseCSV_total:
  "\<exists>d. parseCSV csv = Inr d \<and> length (data d) \<le> length (csvLines csv) - 1 \<and>
       title1 d \<noteq> [] \<and> title2 d \<noteq> []"
proof (cases "csvLines csv = []")
  case True
  then show ?thesis by (simp add: parseCSV_def)
next
  case False
  have "length (List.map_filter rowBody (drop (firstHeader (csvLines csv) 0 + 1) (csvLines csv)))
      \<le> length (drop (firstHeader (csvLines csv) 0 + 1) (csvLines csv))"
    by (rule length_map_filter_le)
  also have "\<dots> \<le> length (csvLines csv) - 1" by simp
  finally show ?thesis
    using False by (simp add: parseCSV_eq or_default_def split: option.splits)
qed

theorem parseCSV_total_witness:
  "\<exists>d. parseCSV ''no commas here'' = Inr d \<and> data d = []"
proof -
  have "length (csvLines ''no commas here'') = 1" by code_simp
  with parseCSV_total [of "''no commas here''"] show ?thesis by auto
qed

subsection \<open>Claim C4: which line is the header\<close>

text \<open>
  Claim C4. For an input with at least one non-empty line, the header scan returns the
  index of the first of the first five lines that qualifies as a header (at least three
  comma-separated fields, the second one not a number once trimmed and stripped of its
  percent sign), and 0 when none of them qualifies; \<open>parseCSV\<close> takes its two labels
  from that line and its rows from the lines after it.
\<close>

theorem header_is_first_qualifying_line:
  assumes "csvLines csv \<noteq> []"
  shows "\<exists>h d. headerLoop (csvLines csv) 0 = Inr h \<and> h < length (csvLines csv) \<and>
     (if \<exists>i. i < min (length (csvLines csv)) 5 \<and> isHeaderLine (csvLines csv ! i)
      then h < 5 \<and> isHeaderLine (csvLines csv ! h) \<and>
           (\<forall>j. j < h \<longrightarrow> \<not> isHeaderLine (csvLines csv ! j))
      else h = 0) \<and>
     parseCSV csv = Inr d \<and>
     title1 d = or_default (nth_opt (map trim (split comma (csvLines csv ! h))) 1) ''Metric 1'' \<and>
     title2 d = or_default (nth_opt (map trim (split comma (csvLines csv ! h))) 2) ''Metric 2'' \<and>
     data d = List.map_filter rowBody (drop (h + 1) (csvLines csv))"
proof -
  let ?ls = "csvLines csv"
  let ?h = "firstHeader ?ls 0"
  have sel: "if \<exists>i. i < min (length ?ls) 5 \<and> isHeaderLine (?ls ! i)
      then ?h < 5 \<and> isHeaderLine (?ls ! ?h) \<and> (\<forall>j. j < ?h \<longrightarrow> \<not> isHeaderLine (?ls ! j))
      else ?h = 0"
    using firstHeader_cases [of 0 ?ls] by auto
  show ?thesis
    apply (rule exI [of _ ?h])
    apply (rule exI)
    apply (intro conjI)
           apply (rule headerLoop_eq)
          apply (rule firstHeader_less [OF assms])
         apply (rule sel)
        apply (rule parseCSV_eq [OF assms])
       apply simp_all
    done
qed

theorem header_is_first_qualifying_line_witness:
  "csvLines header_second_csv \<noteq> [] \<and>
   headerLoop (csvLines header_second_csv) 0 = Inr 1 \<and>
   isHeaderLine (csvLines header_second_csv ! 1) \<and>
   \<not> isHeaderLine (csvLines header_second_csv ! 0) \<and>
   (\<exists>d. parseCSV header_second_csv = Inr d \<and> title1 d = ''a'' \<and> title2 d = ''b'' \<and>
        data d = [\<lparr>category = ''X'', metric1 = Finite 1, metric2 = Finite 2\<rparr>])"
proof -
  have ne: "csvLines header_second_csv \<noteq> []" by code_simp
  have h1: "headerLoop (csvLines header_second_csv) 0 = Inr 1" by code_simp
  have l0: "csvLines header_second_csv ! 0 = ''1,2,3''" by code_simp
  have l1: "csvLines header_second_csv ! 1 = ''name,a,b''" by code_simp
  have dr: "drop (1 + 1) (csvLines header_second_csv) = [''X,1,2'']" by code_simp
  have t1: "or_default (nth_opt (map trim (split comma ''name,a,b'')) 1) ''Metric 1'' = ''a''" by code_simp
  have t2: "or_default (nth_opt (map trim (split comma ''name,a,b'')) 2) ''Metric 2'' = ''b''" by code_simp
  have rows: "List.map_filter rowBody [''X,1,2''] = [\<lparr>category = ''X'', metric1 = Finite 1, metric2 = Finite 2\<rparr>]"
    by code_simp
  have q1: "isHeaderLine (csvLines header_second_csv ! 1)" unfolding l1 by code_simp
  have q0: "\<not> isHeaderLine (csvLines header_second_csv ! 0)" unfolding l0 by code_simp
  from header_is_first_qualifying_line [OF ne] h1
  obtain d where d: "parseCSV header_second_csv = Inr d"
    "title1 d = or_default (nth_opt (map trim (split comma (csvLines header_second_csv ! 1))) 1) ''Metric 1''"
    "title2 d = or_default (nth_opt (map trim (split comma (csvLines header_second_csv ! 1))) 2) ''Metric 2''"
    "data d = List.map_filter rowBody (drop (1 + 1) (csvLines header_second_csv))"
    by auto
  have "title1 d = ''a''" using d(2) by (simp only: l1 t1)
  moreover have "title2 d = ''b''" using d(3) by (simp only: l1 t2)
  moreover have "data d = [\<lparr>category = ''X'', metric1 = Finite 1, metric2 = Finite 2\<rparr>]"
    using d(4) by (simp only: dr rows)
  ultimately show ?thesis
    using ne h1 q0 q1 d(1) by blast
qed

subsection \<open>Claim C2: which rows are kept\<close>

text \<open>
  Claim C2, as the code has it. A line whose category is not empty is kept if and only
  if each of its two metric fields is either empty (missing, or nothing but a percent
  sign) or parses as a number once its first percent sign is removed. An empty metric
  is read as 0, by the \<open>|| '0'\<close> of lines 56 and 57; a metric that is not empty and does
  not parse discards the row. The rows \<open>parseCSV\<close> returns are the kept ones among the
  lines after the header, in order.
\<close>

theorem row_kept_iff_metrics_accepted:
  assumes "rowFields l = (Some c, v1, v2)" and "c \<noteq> []"
  shows "(rowBody l \<noteq> None) =
           ((metricEmpty v1 \<or> metricNumeric v1) \<and> (metricEmpty v2 \<or> metricNumeric v2)) \<and>
         (\<forall>p. rowBody l = Some p \<longrightarrow>
              category p = c \<and>
              (metricEmpty v1 \<longrightarrow> metric1 p = Finite 0) \<and>
              (metricEmpty v2 \<longrightarrow> metric2 p = Finite 0)) \<and>
         (\<exists>d. parseCSV csv = Inr d \<and> data d = List.map_filter rowBody (postHeaderLines csv))"
proof (intro conjI allI impI)
  show "(rowBody l \<noteq> None) =
      ((metricEmpty v1 \<or> metricNumeric v1) \<and> (metricEmpty v2 \<or> metricNumeric v2))"
    by (rule rowBody_kept_iff [OF assms])
next
  fix p assume p: "rowBody l = Some p"
  then show "category p = c"
    using assms by (auto simp add: rowBody_def Let_def split: if_splits)
  from rowBody_zero [OF p assms(1)]
  show "metricEmpty v1 \<Longrightarrow> metric1 p = Finite 0" and "metricEmpty v2 \<Longrightarrow> metric2 p = Finite 0"
    by blast+
next
  show "\<exists>d. parseCSV csv = Inr d \<and> data d = List.map_filter rowBody (postHeaderLines csv)"
    by (rule parseCSV_data)
qed

theorem row_kept_iff_metrics_accepted_witness:
  "rowFields ''Y,,7%'' = (Some ''Y'', Some [], Some ''7%'') \<and> ''Y'' \<noteq> [] \<and>
   metricEmpty (Some []) \<and> metricNumeric (Some ''7%'') \<and>
   rowBody ''Y,,7%'' = Some \<lparr>category = ''Y'', metric1 = Finite 0, metric2 = Finite 7\<rparr> \<and>
   rowFields ''Z,abc,7'' = (Some ''Z'', Some ''abc'', Some ''7'') \<and> ''Z'' \<noteq> [] \<and>
   \<not> metricEmpty (Some ''abc'') \<and> \<not> metricNumeric (Some ''abc'') \<and>
   rowBody ''Z,abc,7'' = None"
proof -
  have fy: "rowFields ''Y,,7%'' = (Some ''Y'', Some [], Some ''7%'')" by code_simp
  have fz: "rowFields ''Z,abc,7'' = (Some ''Z'', Some ''abc'', Some ''7'')" by code_simp
  have ny: "''Y'' \<noteq> []" and nz: "''Z'' \<noteq> []" by simp_all
  have m1: "metricEmpty (Some [])" by code_simp
  have m2: "metricNumeric (Some ''7%'')" by code_simp
  have m3: "\<not> metricEmpty (Some ''abc'')" by code_simp
  have m4: "\<not> metricNumeric (Some ''abc'')" by code_simp
  have vy: "rowBody ''Y,,7%'' = Some \<lparr>category = ''Y'', metric1 = Finite 0, metric2 = Finite 7\<rparr>"
    by code_simp
  have "rowBody ''Z,abc,7'' = None"
    using row_kept_iff_metrics_accepted [OF fz nz, of "[]"] m3 m4 by blast
  moreover have "rowBody ''Y,,7%'' \<noteq> None"
    using row_kept_iff_metrics_accepted [OF fy ny, of "[]"] m1 m2 by blast
  ultimately show ?thesis
    using fy fz ny nz m1 m2 m3 m4 vy by blast
qed

text \<open>
  Claim C2 as stated fails: in the row \<open>X,,5\<close> the first metric is empty, which is not a
  number, and the second is valid; the row is kept, with the first metric 0.
\<close>

theorem empty_metric_kept_counterexample:
  "rowFields ''X,,5'' = (Some ''X'', Some [], Some ''5'') \<and>
   isNaN (parseFloat (replace_percent [])) \<and>
   \<not> isNaN (parseFloat (replace_percent ''5'')) \<and>
   parseCSV empty_metric_csv =
     Inr \<lparr>title1 = ''a'', title2 = ''b'',
          data = [\<lparr>category = ''X'', metric1 = Finite 0, metric2 = Finite 5\<rparr>]\<rparr>"
  by code_simp

subsection \<open>Claim C1: the legacy format\<close>

lemma legacy_eval:
  "parseCSV legacy_csv = Inr \<lparr>title1 = ''X'', title2 = ''10'', data = [rowY]\<rparr>"
  by code_simp

text \<open>
  Claim C1, as the code has it. On both lines of the legacy input the column shift
  applies (category from field 1, metrics from fields 2 and 3) and gives the rows X and
  Y. \<open>parseCSV\<close> takes the first non-empty line of any input as the header when no
  later one qualifies, so on the two-line input the line of X is the header (its labels
  are \<open>X\<close> and \<open>10\<close>) and only the row Y is returned; with a header line in front, the
  two rows are returned.
\<close>

theorem legacy_first_line_is_header:
  "parseCSV legacy_csv = Inr \<lparr>title1 = ''X'', title2 = ''10'', data = [rowY]\<rparr> \<and>
   rowFields '',X,10,20'' = (Some ''X'', Some ''10'', Some ''20'') \<and>
   rowFields '',Y,5,15'' = (Some ''Y'', Some ''5'', Some ''15'') \<and>
   rowBody '',X,10,20'' = Some rowX \<and>
   rowBody '',Y,5,15'' = Some rowY \<and>
   parseCSV ('',Category,A,B'' @ [newline] @ legacy_csv) =
     Inr \<lparr>title1 = ''Category'', title2 = ''A'', data = [rowX, rowY]\<rparr>"
  by code_simp

text \<open>
  Claim C1 as stated fails: the two-line legacy input does not give the two rows.
\<close>

theorem legacy_two_rows_counterexample:
  "\<not> (case parseCSV legacy_csv of Inl e \<Rightarrow> False | Inr d \<Rightarrow> data d = [rowX, rowY])"
  by (simp add: legacy_eval)

section \<open>Properties of the label font size\<close>

lemma fontSize_ge: "6 \<le> fontSize radius name"
  by (simp add: fontSize_def Let_def)

lemma fontSize_le: "fontSize radius name \<le> max 6 (min (radius / 4.5) 11)"
  by (auto simp add: fontSize_def Let_def)

text \<open>
  Claim C3, as the code has it. For every circle radius \<open>r > 0\<close> and every non-empty
  name label, the font size is never below 6px, and never above the larger of 6px and
  the cap \<open>min(r/4.5, 11)\<close>; so it is never above the cap when the radius is at least
  27, where the cap is at least 6. Below that radius the floor of line 114 lifts the
  size over the cap.
\<close>

theorem fontSize_bounds:
  assumes "0 < radius" and "name \<noteq> []"
  shows "6 \<le> fontSize radius name \<and>
         fontSize radius name \<le> max 6 (min (radius / 4.5) 11) \<and>
         (27 \<le> radius \<longrightarrow> fontSize radius name \<le> min (radius / 4.5) 11)"
proof -
  have "max 6 (min (radius / 4.5) 11) = min (radius / 4.5) 11" if "27 \<le> radius"
    using that by (simp add: max_def min_def)
  with fontSize_le [of radius name] fontSize_ge [of radius name] show ?thesis
    by auto
qed

theorem fontSize_bounds_witness:
  "(0::real) < 45 \<and> ''abc'' \<noteq> [] \<and> (27::real) \<le> 45 \<and>
   6 \<le> fontSize 45 ''abc'' \<and> fontSize 45 ''abc'' \<le> min (45 / 4.5) 11"
proof -
  have r: "(0::real) < 45" and n: "''abc'' \<noteq> []" by simp_all
  from fontSize_bounds [OF r n] show ?thesis by simp
qed

text \<open>
  Claim C3 as stated fails for a small circle: at radius 9 the cap is 2px and the label
  of the one-letter name is set at the floor, 6px.
\<close>

theorem fontSize_cap_counterexample:
  "(0::real) < 9 \<and> ''a'' \<noteq> [] \<and> \<not> fontSize 9 ''a'' \<le> min (9 / 4.5) 11"
proof -
  have "6 \<le> fontSize 9 ''a''" by (rule fontSize_ge)
  moreover have "min ((9::real) / 4.5) 11 = 2" by simp
  ultimately show ?thesis by simp
qed

section \<open>Properties of the palette generator\<close>








text \<open>
  Claim C7, as the code has it. For a base colour that d3 does not parse,
  \<open>generateScale\<close> returns \<open>steps\<close> copies of the input string when \<open>steps\<close> is an
  array length, from 0 to \<open>2^32 - 1\<close>; for any other step count \<open>Array(steps)\<close> raises
  a \<open>RangeError\<close>.
\<close>

theorem generateScale_unparseable:
  assumes "d3_color baseColor = None"
  shows "generateScale d3_color d3_hsl formatHex baseColor steps =
           (if 0 \<le> steps \<and> steps < 2 ^ 32 then Inr (replicate (nat steps) baseColor)
            else Inl RangeError)"
  using assms by (simp add: generateScale_def Array_fill_def)

lemma not_a_color: "hex_color ''not-a-color'' = None"
  by code_simp

theorem generateScale_unparseable_witness:
  "hex_color ''not-a-color'' = None \<and>
   generateScale hex_color hex_hsl hex_formatHex ''not-a-color'' 3 =
     Inr [''not-a-color'', ''not-a-color'', ''not-a-color'']"
  using generateScale_unparseable [where d3_color = hex_color and d3_hsl = hex_hsl
      and formatHex = hex_formatHex and baseColor = "''not-a-color''" and steps = 3,
      OF not_a_color] not_a_color
  by (simp add: numeral_3_eq_3)

text \<open>
  Claim C7 as stated fails for a step count that is no array length: \<open>2^32\<close> copies are
  not returned, \<open>Array(4294967296)\<close> raises.
\<close>

theorem generateScale_unparseable_counterexample:
  "hex_color ''not-a-color'' = None \<and>
   generateScale hex_color hex_hsl hex_formatHex ''not-a-color'' 4294967296 = Inl RangeError"
  using not_a_color by (simp add: generateScale_def Array_fill_def)

section \<open>Properties of the label wrapping\<close>

lemma splitSpaces_not_Nil: "splitSpaces s \<noteq> []"
  by (induction s rule: splitSpaces.induct) (auto split: list.splits)

lemma wrapInv_start: "wrapInv radius [] (wrapStart radius)"
  by (simp add: wrapInv_def wrapStart_def shown_def Let_def)

lemma sublist_snoc_right: "sublist us pre \<Longrightarrow> sublist us (pre @ [w])"
  unfolding sublist_def by (metis append.assoc)

lemma wrapInv_step:
  assumes "wrapInv radius pre st"
  shows "wrapInv radius (pre @ [w]) (wrapStep textLength radius lineHeight st w)"
proof -
  from assms have suf: "suffix (line st) pre"
    and ne: "pre \<noteq> [] \<longrightarrow> line st \<noteq> []"
    and texts: "\<forall>yt \<in> set (shown st). \<exists>us. (pre \<noteq> [] \<longrightarrow> us \<noteq> []) \<and> sublist us pre \<and> snd yt = joinSpace us"
    and ys: "\<forall>y \<in> set (tl (map fst (shown st))). y < radius * 0.9"
    and len: "length (shown st) + length (line st) \<le> 1 + length pre"
    by (simp_all add: wrapInv_def)
  have suf1: "suffix (line st @ [w]) (pre @ [w])"
    using suf by (auto simp: suffix_def)
  have sub_line: "sublist (line st) (pre @ [w])"
    using suf by (blast intro: sublist_snoc_right suffix_imp_sublist)
  have sub_line1: "sublist (line st @ [w]) (pre @ [w])"
    using suf1 by (rule suffix_imp_sublist)
  have sub_w: "sublist [w] (pre @ [w])"
    by (rule suffix_imp_sublist) (simp add: suffix_def)
  have old: "\<exists>us. us \<noteq> [] \<and> sublist us (pre @ [w]) \<and> snd yt = joinSpace us"
    if "yt \<in> set (earlier st)" for yt
  proof -
    from that texts obtain us where us: "pre \<noteq> [] \<longrightarrow> us \<noteq> []" "sublist us pre" "snd yt = joinSpace us"
      by (auto simp: shown_def)
    from that have "earlier st \<noteq> []" by auto
    with len have "pre \<noteq> []" by (cases "earlier st") (auto simp: shown_def)
    with us show ?thesis by (blast intro: sublist_snoc_right)
  qed
  let ?wrap = "textLength (joinSpace (line st @ [w])) > allowedWidth st \<and> length (line st @ [w]) > 1"
  let ?y = "currentY st + lineHeight"
  consider (stay) "\<not> ?wrap" | (append) "?wrap" "?y < radius * 0.9" | (clip) "?wrap" "\<not> ?y < radius * 0.9"
    by blast
  then show ?thesis
  proof cases
    case stay
    then have st': "wrapStep textLength radius lineHeight st w =
        \<lparr>line = line st @ [w], earlier = earlier st, tspan = (fst (tspan st), joinSpace (line st @ [w])),
         currentY = currentY st, allowedWidth = allowedWidth st\<rparr>"
      by (simp add: wrapStep_def Let_def)
    have "\<exists>us. us \<noteq> [] \<and> sublist us (pre @ [w]) \<and> joinSpace (line st @ [w]) = joinSpace us"
      using sub_line1 by blast
    with old ys len suf1 show ?thesis
      unfolding st' wrapInv_def by (auto simp: shown_def)
  next
    case append
    then have lne: "line st \<noteq> []" by auto
    from append have st': "wrapStep textLength radius lineHeight st w =
        \<lparr>line = [w], earlier = earlier st @ [(fst (tspan st), joinSpace (line st))], tspan = (?y, w),
         currentY = ?y, allowedWidth = getWidthAtY radius ?y\<rparr>"
      by (simp add: wrapStep_def Let_def)
    have t2: "\<exists>us. us \<noteq> [] \<and> sublist us (pre @ [w]) \<and> joinSpace (line st) = joinSpace us"
      using sub_line lne by blast
    have t3: "\<exists>us. us \<noteq> [] \<and> sublist us (pre @ [w]) \<and> w = joinSpace us"
      using sub_w by (intro exI [of _ "[w]"]) simp
    have tl: "tl (map fst (earlier st) @ [fst (tspan st), ?y]) = tl (map fst (earlier st) @ [fst (tspan st)]) @ [?y]"
      by (cases "earlier st") simp_all
    have len': "length (earlier st) + 2 + 1 \<le> 1 + (length pre + 1)"
      using len lne by (cases "line st") (auto simp: shown_def)
    show ?thesis
      unfolding st' wrapInv_def using old t2 t3 ys append(2) len'
      by (auto simp: shown_def tl suffix_def)
  next
    case clip
    then have lne: "line st \<noteq> []" by auto
    from clip have st': "wrapStep textLength radius lineHeight st w =
        \<lparr>line = [w], earlier = earlier st, tspan = (fst (tspan st), joinSpace (line st)),
         currentY = ?y, allowedWidth = getWidthAtY radius ?y\<rparr>"
      by (simp add: wrapStep_def Let_def)
    have t2: "\<exists>us. us \<noteq> [] \<and> sublist us (pre @ [w]) \<and> joinSpace (line st) = joinSpace us"
      using sub_line lne by blast
    have len': "length (earlier st) + 1 + 1 \<le> 1 + (length pre + 1)"
      using len lne by (cases "line st") (auto simp: shown_def)
    show ?thesis
      unfolding st' wrapInv_def using old t2 ys len'
      by (auto simp: shown_def suffix_def)
  qed
qed

lemma wrapInv_foldl:
  "wrapInv radius pre st \<Longrightarrow>
   wrapInv radius (pre @ ws) (foldl (wrapStep textLength radius lineHeight) st ws)"
proof (induction ws arbitrary: pre st)
  case Nil
  then show ?case by simp
next
  case (Cons w ws)
  from Cons.IH [OF wrapInv_step [OF Cons.prems, of w textLength lineHeight]]
  show ?case by simp
qed

lemma wrapInv_label: "wrapInv radius (splitSpaces name) (wrapLabel textLength radius name)"
  using wrapInv_foldl [OF wrapInv_start, of radius "splitSpaces name"]
  by (simp add: wrapLabel_def Let_def)

lemma wrapStep_first_word:
  "line st = [] \<Longrightarrow>
   wrapStep width radius lineHeight st w =
     \<lparr>line = [w], earlier = earlier st, tspan = (fst (tspan st), w),
      currentY = currentY st, allowedWidth = allowedWidth st\<rparr>"
  by (simp add: wrapStep_def Let_def)

lemma wrapStep_wrap:
  assumes "line st \<noteq> []" and "width (joinSpace (line st @ [w])) > allowedWidth st"
  shows "line (wrapStep width radius lineHeight st w) = [w]"
    and "currentY (wrapStep width radius lineHeight st w) = currentY st + lineHeight"
    and "shown (wrapStep width radius lineHeight st w) =
       (if currentY st + lineHeight < radius * 0.9
        then earlier st @ [(fst (tspan st), joinSpace (line st)), (currentY st + lineHeight, w)]
        else earlier st @ [(fst (tspan st), joinSpace (line st))])"
  using assms by (simp_all add: wrapStep_def Let_def shown_def)

text \<open>
  Claim C10. The wrapping never breaks inside a word. Whatever the text measure, the
  radius and the name: every \<open>tspan\<close> of the label shows a non-empty contiguous run of
  the words of the name, joined by spaces; every \<open>tspan\<close> but the first has a \<open>y\<close>
  smaller than \<open>0.9 * radius\<close>, so none is appended at or beyond it; and there are no more
  \<open>tspan\<close>s than words. In one round of the loop: a word that arrives on an empty line
  stays there whatever its width, nothing else changes; a word that makes a line of
  one or more words too wide moves whole to the next line, with no test of its own
  width, and the words before it stay on their line, which is shown as it was; the next
  line is shown only when its \<open>y\<close> is smaller than \<open>0.9 * radius\<close>.
\<close>

theorem wrap_keeps_words_whole:
  "(\<forall>yt \<in> set (shown (wrapLabel textLength radius name)).
      \<exists>us. us \<noteq> [] \<and> sublist us (splitSpaces name) \<and> snd yt = joinSpace us) \<and>
   (\<forall>y \<in> set (tl (map fst (shown (wrapLabel textLength radius name)))). y < radius * 0.9) \<and>
   length (shown (wrapLabel textLength radius name)) \<le> length (splitSpaces name) \<and>
   (line st = [] \<longrightarrow>
      wrapStep width radius lineHeight st w =
        \<lparr>line = [w], earlier = earlier st, tspan = (fst (tspan st), w),
         currentY = currentY st, allowedWidth = allowedWidth st\<rparr>) \<and>
   (line st \<noteq> [] \<and> width (joinSpace (line st @ [w])) > allowedWidth st \<longrightarrow>
      line (wrapStep width radius lineHeight st w) = [w] \<and>
      currentY (wrapStep width radius lineHeight st w) = currentY st + lineHeight \<and>
      shown (wrapStep width radius lineHeight st w) =
        (if currentY st + lineHeight < radius * 0.9
         then earlier st @ [(fst (tspan st), joinSpace (line st)), (currentY st + lineHeight, w)]
         else earlier st @ [(fst (tspan st), joinSpace (line st))]))"
proof -
  let ?st = "wrapLabel textLength radius name"
  let ?ws = "splitSpaces name"
  have inv: "wrapInv radius ?ws ?st" by (rule wrapInv_label)
  have ws: "?ws \<noteq> []" by (rule splitSpaces_not_Nil)
  have a: "\<forall>yt \<in> set (shown ?st). \<exists>us. us \<noteq> [] \<and> sublist us ?ws \<and> snd yt = joinSpace us"
    using inv ws unfolding wrapInv_def by blast
  have b: "\<forall>y \<in> set (tl (map fst (shown ?st))). y < radius * 0.9"
    using inv unfolding wrapInv_def by blast
  have "line ?st \<noteq> []" "length (shown ?st) + length (line ?st) \<le> 1 + length ?ws"
    using inv ws unfolding wrapInv_def by blast+
  then have c: "length (shown ?st) \<le> length ?ws"
    by (cases "line ?st") simp_all
  show ?thesis
    using a b c wrapStep_first_word [of st width radius lineHeight w]
      wrapStep_wrap [of st width w radius lineHeight]
    by blast
qed

lemma getWidthAtY_le: "0 \<le> r \<Longrightarrow> getWidthAtY r y \<le> 1.8 * r"
proof -
  assume r: "0 \<le> r"
  have "sqrt (r * r - \<bar>y\<bar> * \<bar>y\<bar>) \<le> sqrt (r * r)"
    by (rule real_sqrt_le_mono) simp
  also have "sqrt (r * r) = r" using r by simp
  finally show ?thesis using r by (simp add: getWidthAtY_def Let_def)
qed

lemma fontSize_small: "radius \<le> 27 \<Longrightarrow> fontSize radius name = 6"
  using fontSize_ge [of radius name] fontSize_le [of radius name]
  by (simp add: max_def min_def split: if_splits)

lemma words_example: "splitSpaces ''extraordinary idea'' = [''extraordinary'', ''idea'']"
  by code_simp

theorem wrap_keeps_words_whole_witness:
  "line (wrapStart 10) = [] \<and>
   allowedWidth (wrapStart 10) < charWidth 6 ''extraordinary'' \<and>
   shown (wrapLabel charWidth 10 ''extraordinary idea'') =
     [(1, ''extraordinary''), (7.6, ''idea'')]"
proof -
  let ?m = "charWidth 6"
  let ?s0 = "wrapStart 10"
  let ?s1 = "wrapStep ?m 10 6.6 ?s0 ''extraordinary''"
  let ?s2 = "wrapStep ?m 10 6.6 ?s1 ''idea''"
  note thm1 = wrap_keeps_words_whole [where textLength = charWidth and radius = 10
      and name = "''extraordinary idea''" and st = ?s0 and width = ?m and lineHeight = "6.6"
      and w = "''extraordinary''"]
  note thm2 = wrap_keeps_words_whole [where textLength = charWidth and radius = 10
      and name = "''extraordinary idea''" and st = ?s1 and width = ?m and lineHeight = "6.6"
      and w = "''idea''"]
  have l0: "line ?s0 = []" by (simp add: wrapStart_def)
  have aw: "allowedWidth ?s0 \<le> 18"
    using getWidthAtY_le [of 10 1] by (simp add: wrapStart_def)
  have w1: "charWidth 6 ''extraordinary'' = 46.8" by (simp add: charWidth_def)
  note first = thm1 [THEN conjunct2, THEN conjunct2, THEN conjunct2, THEN conjunct1, THEN mp, OF l0]
  note wrap = thm2 [THEN conjunct2, THEN conjunct2, THEN conjunct2, THEN conjunct2, THEN mp,
      THEN conjunct2, THEN conjunct2]
  have s1: "?s1 = \<lparr>line = [''extraordinary''], earlier = [], tspan = (1, ''extraordinary''),
      currentY = 1, allowedWidth = allowedWidth ?s0\<rparr>"
    using first by (simp add: wrapStart_def)
  have f1: "line ?s1 = [''extraordinary'']" "earlier ?s1 = []" "tspan ?s1 = (1, ''extraordinary'')"
    "currentY ?s1 = 1" "allowedWidth ?s1 = allowedWidth ?s0"
    unfolding s1 by simp_all
  have w2: "charWidth 6 ''extraordinary idea'' = 64.8"
    by (simp add: charWidth_def)
  have "line ?s1 \<noteq> [] \<and> ?m (joinSpace (line ?s1 @ [''idea''])) > allowedWidth ?s1"
    unfolding f1 using aw by (simp add: w2)
  then have "shown ?s2 =
      (if currentY ?s1 + 6.6 < 10 * 0.9
       then earlier ?s1 @ [(fst (tspan ?s1), joinSpace (line ?s1)), (currentY ?s1 + 6.6, ''idea'')]
       else earlier ?s1 @ [(fst (tspan ?s1), joinSpace (line ?s1))])"
    by (rule wrap)
  then have s2: "shown ?s2 = [(1, ''extraordinary''), (7.6, ''idea'')]"
    unfolding f1 by simp
  have fs: "fontSize 10 ''extraordinary idea'' = 6" by (rule fontSize_small) simp
  have "(6::real) * 1.1 = 6.6" by simp
  then have "wrapLabel charWidth 10 ''extraordinary idea'' = ?s2"
    by (simp only: wrapLabel_def Let_def words_example fs foldl.simps)
  with s2 have "shown (wrapLabel charWidth 10 ''extraordinary idea'') =
      [(1, ''extraordinary''), (7.6, ''idea'')]"
    by (simp only:)
  moreover have "allowedWidth ?s0 < charWidth 6 ''extraordinary''"
    unfolding w1 using aw by simp
  ultimately show ?thesis using l0 by blast
qed


end
